theory Spec2Isabelle
  imports Main
begin

section \<open>Python values and string methods used by the GUI\<close>

text \<open>
  Python strings are modelled as \<^typ>\<open>string\<close>; a character stands for one code point
  below 256. Exceptions are values of \<open>py_error\<close>: \<open>Empty\<close> is \<^verbatim>\<open>queue.Empty\<close>,
  \<open>IndexError\<close> is raised by list indexing out of range.
\<close>

datatype py_error = Empty | IndexError

abbreviation NL :: string where
  "NL \<equiv> [CHR 0x0A]"

text \<open>\<^verbatim>\<open>s.endswith(suffix)\<close>.\<close>

definition endswith :: "string \<Rightarrow> string \<Rightarrow> bool" where
  "endswith s suffix =
     (length suffix \<le> length s \<and> drop (length s - length suffix) s = suffix)"

text \<open>
  \<^verbatim>\<open>str.isspace\<close> on one code point below 256: TAB, LF, VT, FF, CR, the four
  separators FS, GS, RS, US, the space, NEL and the no-break space.
\<close>

definition isspace :: "char \<Rightarrow> bool" where
  "isspace c = (c \<in> set [CHR 0x09, CHR 0x0A, CHR 0x0B, CHR 0x0C, CHR 0x0D,
                          CHR 0x1C, CHR 0x1D, CHR 0x1E, CHR 0x1F, CHR 0x20,
                          CHR 0x85, CHR 0xA0])"

definition lstrip :: "string \<Rightarrow> string" where
  "lstrip s = dropWhile isspace s"

definition rstrip :: "string \<Rightarrow> string" where
  "rstrip s = rev (dropWhile isspace (rev s))"

text \<open>\<^verbatim>\<open>s.strip()\<close>: whitespace removed at both ends.\<close>

definition strip :: "string \<Rightarrow> string" where
  "strip s = rstrip (lstrip s)"

text \<open>
  \<^verbatim>\<open>xs[i]\<close> on a Python list: an index below zero counts from the end, an index
  outside the list raises.
\<close>

definition getitem :: "'a list \<Rightarrow> int \<Rightarrow> py_error + 'a" where
  "getitem xs i =
     (if 0 \<le> i \<and> i < int (length xs) then Inr (xs ! nat i)
      else if i < 0 \<and> - int (length xs) \<le> i then Inr (xs ! nat (int (length xs) + i))
      else Inl IndexError)"

text \<open>\<^verbatim>\<open>s.split(sep)\<close> for a separator of one character, and \<^verbatim>\<open>sep.join(parts)\<close>.\<close>

fun split_sep :: "char \<Rightarrow> string \<Rightarrow> string list" where
  "split_sep c [] = [[]]"
| "split_sep c (x # xs) =
     (if x = c then [] # split_sep c xs
      else (case split_sep c xs of
              [] \<Rightarrow> [[x]]
            | part # parts \<Rightarrow> (x # part) # parts))"

fun join :: "string \<Rightarrow> string list \<Rightarrow> string" where
  "join sep [] = []"
| "join sep [part] = part"
| "join sep (part # parts) = part @ sep @ join sep parts"

text \<open>
  \<^verbatim>\<open>pathlib.Path\<close> in its POSIX flavour (no drive). A path object holds a root, which
  is empty, one slash or two slashes, and the components behind it; empty components
  and single dots are dropped when the object is built. \<^verbatim>\<open>str(path)\<close> joins them again
  and is a single dot for the path without root and components.
\<close>

datatype path = PosixPath (root: string) (tail: "string list")

definition path_parts :: "string \<Rightarrow> string list" where
  "path_parts rel = filter (\<lambda>x. x \<noteq> [] \<and> x \<noteq> ''.'') (split_sep CHR ''/'' rel)"

definition Path :: "string \<Rightarrow> path" where
  "Path s =
     (if take 1 s \<noteq> ''/'' then PosixPath [] (path_parts s)
      else if take 1 (drop 1 s) \<noteq> ''/'' \<or> take 1 (drop 2 s) = ''/''
        then PosixPath ''/'' (path_parts (drop 1 s))
      else PosixPath ''//'' (path_parts (drop 2 s)))"

definition path_str :: "path \<Rightarrow> string" where
  "path_str p =
     (let s = root p @ join ''/'' (tail p)
      in if s = [] then ''.'' else s)"


section \<open>gui/pipe.py\<close>

text \<open>
  \<^verbatim>\<open>class Pipe(queue.Queue, io.TextIOBase)\<close>. The state of a \<^verbatim>\<open>queue.Queue\<close> is its
  bound \<open>maxsize\<close> and the deque of queued items, oldest first. Each queue operation runs
  under the queue's mutex, so it is one atomic step on this state. A call that would wait
  on a condition variable (a \<^verbatim>\<open>put\<close> on a full queue, a \<^verbatim>\<open>get\<close> on an empty one) has the
  value \<open>None\<close>: the caller does not return in this state.
\<close>

record Pipe =
  maxsize :: int
  queue :: "string list"

definition Pipe_init :: "int \<Rightarrow> Pipe" where
  "Pipe_init m = \<lparr>maxsize = m, queue = []\<rparr>"

text \<open>The default of the parameter \<^verbatim>\<open>maxsize\<close> of \<^verbatim>\<open>Pipe.__init__\<close>.\<close>

definition default_maxsize :: int where
  "default_maxsize = 2048"

text \<open>\<^verbatim>\<open>Queue.full()\<close>.\<close>

definition full :: "Pipe \<Rightarrow> bool" where
  "full self = (0 < maxsize self \<and> maxsize self \<le> int (length (queue self)))"

text \<open>\<^verbatim>\<open>Queue.put(item)\<close>: a bound of zero or less means no bound.\<close>

definition put :: "Pipe \<Rightarrow> string \<Rightarrow> Pipe option" where
  "put self item =
     (if 0 < maxsize self \<and> maxsize self \<le> int (length (queue self)) then None
      else Some (self\<lparr>queue := queue self @ [item]\<rparr>))"

text \<open>\<^verbatim>\<open>Queue.get()\<close>: blocks while the queue is empty.\<close>

definition get :: "Pipe \<Rightarrow> (string \<times> Pipe) option" where
  "get self =
     (case queue self of
        [] \<Rightarrow> None
      | item # rest \<Rightarrow> Some (item, self\<lparr>queue := rest\<rparr>))"

text \<open>\<^verbatim>\<open>Queue.get_nowait()\<close>: raises \<^verbatim>\<open>queue.Empty\<close> instead of blocking.\<close>

definition get_nowait :: "Pipe \<Rightarrow> py_error + (string \<times> Pipe)" where
  "get_nowait self =
     (case queue self of
        [] \<Rightarrow> Inl Empty
      | item # rest \<Rightarrow> Inr (item, self\<lparr>queue := rest\<rparr>))"

text \<open>\<^verbatim>\<open>Pipe.write\<close>.\<close>

definition Pipe_write :: "Pipe \<Rightarrow> string \<Rightarrow> Pipe option" where
  "Pipe_write self s = put self s"

definition readline :: "Pipe \<Rightarrow> (string \<times> Pipe) option" where
  "readline self = get self"

definition flush :: "Pipe \<Rightarrow> Pipe" where
  "flush self = self"

text \<open>
  A history of calls on one relay, in the order in which they took the queue's mutex,
  and its run: the fragments returned by the \<open>Readline\<close> calls, oldest first, together
  with the relay afterwards. \<open>None\<close> when some call of the history would not return.
\<close>

datatype pipe_op = Write string | Readline

fun exec_ops :: "Pipe \<Rightarrow> pipe_op list \<Rightarrow> (Pipe \<times> string list) option" where
  "exec_ops p [] = Some (p, [])"
| "exec_ops p (Write s # ops) =
     (case Pipe_write p s of
        None \<Rightarrow> None
      | Some p' \<Rightarrow> exec_ops p' ops)"
| "exec_ops p (Readline # ops) =
     (case readline p of
        None \<Rightarrow> None
      | Some (x, p') \<Rightarrow>
          (case exec_ops p' ops of
             None \<Rightarrow> None
           | Some (q, outs) \<Rightarrow> Some (q, x # outs)))"

text \<open>The fragments written by a history, in order.\<close>

fun written :: "pipe_op list \<Rightarrow> string list" where
  "written [] = []"
| "written (Write s # ops) = s # written ops"
| "written (Readline # ops) = written ops"

text \<open>\<open>n\<close> blocking \<^verbatim>\<open>readline\<close> calls in a row.\<close>

fun readlines :: "nat \<Rightarrow> Pipe \<Rightarrow> (string list \<times> Pipe) option" where
  "readlines 0 p = Some ([], p)"
| "readlines (Suc n) p =
     (case readline p of
        None \<Rightarrow> None
      | Some (x, p') \<Rightarrow>
          (case readlines n p' of
             None \<Rightarrow> None
           | Some (xs, q) \<Rightarrow> Some (x # xs, q)))"


section \<open>gui/engine_thread.py\<close>

record EngineThread =
  argv :: "string list"
  stdin_pipe :: Pipe
  stdout_pipe :: Pipe

definition EngineThread_init :: "string list \<Rightarrow> EngineThread" where
  "EngineThread_init args =
     \<lparr>argv = args, stdin_pipe = Pipe_init default_maxsize,
      stdout_pipe = Pipe_init default_maxsize\<rparr>"

definition to_engine :: "EngineThread \<Rightarrow> Pipe" where
  "to_engine self = stdin_pipe self"

definition from_engine :: "EngineThread \<Rightarrow> Pipe" where
  "from_engine self = stdout_pipe self"

text \<open>
  The attributes \<^verbatim>\<open>sys.stdin\<close>, \<^verbatim>\<open>sys.stdout\<close> and \<^verbatim>\<open>sys.argv\<close> belong to the module
  object \<^verbatim>\<open>sys\<close>, of which the interpreter process has one: the process state holds one
  binding of each, and a thread that evaluates \<^verbatim>\<open>sys.stdout\<close> reads that binding.
\<close>

datatype stream = Console_stdin | Console_stdout | Engine_stdin_pipe | Engine_stdout_pipe

record process =
  sys_stdin :: stream
  sys_stdout :: stream
  sys_argv :: "string list"

datatype thread = Interface_thread | Worker_thread

definition stdin_seen_by :: "thread \<Rightarrow> process \<Rightarrow> stream" where
  "stdin_seen_by t proc = sys_stdin proc"

definition stdout_seen_by :: "thread \<Rightarrow> process \<Rightarrow> stream" where
  "stdout_seen_by t proc = sys_stdout proc"

text \<open>
  \<^verbatim>\<open>EngineThread.run\<close>, executed by the worker thread: the process state when the thread
  ends. The parameter \<open>xyppy\<close> is what \<^verbatim>\<open>from xyppy import __main__\<close> gives: \<open>None\<close> when
  the import raises, which ends the thread there, and otherwise the entry point
  \<^verbatim>\<open>main\<close> of the external interpreter.
\<close>

definition run ::
  "(process \<Rightarrow> process) option \<Rightarrow> EngineThread \<Rightarrow> process \<Rightarrow> process" where
  "run xyppy self proc =
     (let proc1 = proc\<lparr>sys_stdin := Engine_stdin_pipe\<rparr>;
          proc2 = proc1\<lparr>sys_stdout := Engine_stdout_pipe\<rparr>
      in case xyppy of
           None \<Rightarrow> proc2
         | Some xyppy_main \<Rightarrow>
             (let proc3 = proc2\<lparr>sys_argv := ''xyppy'' # argv self\<rparr>
              in xyppy_main proc3))"

definition enqueue_line :: "EngineThread \<Rightarrow> string \<Rightarrow> EngineThread option" where
  "enqueue_line self line =
     (let line1 = (if \<not> endswith line NL then line @ NL else line)
      in case Pipe_write (stdin_pipe self) line1 of
           None \<Rightarrow> None
         | Some p \<Rightarrow> Some (self\<lparr>stdin_pipe := p\<rparr>))"

text \<open>
  \<^verbatim>\<open>enqueue_line\<close> followed by one blocking read from the inbound relay: the fragment
  read, \<open>None\<close> when either call blocks.
\<close>

definition enqueue_then_read :: "EngineThread \<Rightarrow> string \<Rightarrow> string option" where
  "enqueue_then_read self line =
     (case enqueue_line self line of
        None \<Rightarrow> None
      | Some self1 \<Rightarrow>
          (case readline (to_engine self1) of
             None \<Rightarrow> None
           | Some (x, p) \<Rightarrow> Some x))"

text \<open>A string ends with one line terminator and not with two.\<close>

definition one_terminator :: "string \<Rightarrow> bool" where
  "one_terminator s = (endswith s NL \<and> \<not> endswith s (NL @ NL))"


section \<open>gui/widgets/transcript.py\<close>

text \<open>
  The Tk text widget behind \<^verbatim>\<open>Transcript\<close>: its characters (without the newline Tk keeps
  after the last one) and its \<^verbatim>\<open>state\<close> option. Tk ignores \<^verbatim>\<open>insert\<close> on a widget
  whose state is \<^verbatim>\<open>disabled\<close>. The scroll position is not part of the model, so
  \<^verbatim>\<open>see("end")\<close> leaves the state as it is.
\<close>

datatype widget_state = Normal | Disabled

record Transcript =
  buffer :: string
  wstate :: widget_state

definition Transcript_init :: Transcript where
  "Transcript_init = \<lparr>buffer = [], wstate = Disabled\<rparr>"

definition configure_state :: "widget_state \<Rightarrow> Transcript \<Rightarrow> Transcript" where
  "configure_state s self = self\<lparr>wstate := s\<rparr>"

definition insert_end :: "string \<Rightarrow> Transcript \<Rightarrow> Transcript" where
  "insert_end text self =
     (if wstate self = Disabled then self else self\<lparr>buffer := buffer self @ text\<rparr>)"

definition see_end :: "Transcript \<Rightarrow> Transcript" where
  "see_end self = self"

text \<open>\<^verbatim>\<open>Transcript.append\<close>.\<close>

definition Transcript_append :: "Transcript \<Rightarrow> string \<Rightarrow> Transcript" where
  "Transcript_append self text =
     (let self1 = configure_state Normal self;
          self2 = insert_end text self1;
          self3 = see_end self2
      in configure_state Disabled self3)"


section \<open>gui/widgets/inputbox.py\<close>

text \<open>
  \<open>contents\<close> is what \<^verbatim>\<open>get("1.0", "end-1c")\<close> returns: the characters of the widget
  without Tk's final newline. \<open>history_idx\<close> is a Python \<^verbatim>\<open>int\<close>.
\<close>

record InputBox =
  contents :: string
  history :: "string list"
  history_idx :: int

definition InputBox_init :: InputBox where
  "InputBox_init = \<lparr>contents = [], history = [], history_idx = 0\<rparr>"

definition get_current_line :: "InputBox \<Rightarrow> string" where
  "get_current_line self = contents self"

text \<open>\<^verbatim>\<open>self.delete("1.0", "end")\<close>.\<close>

definition delete_all :: "InputBox \<Rightarrow> InputBox" where
  "delete_all self = self\<lparr>contents := []\<rparr>"

text \<open>
  \<^verbatim>\<open>InputBox._submit\<close>: the widget afterwards and the arguments of the calls of
  \<^verbatim>\<open>on_submit\<close> it made, in order.
\<close>

definition submit :: "InputBox \<Rightarrow> InputBox \<times> string list" where
  "submit self =
     (let text = strip (get_current_line self);
          self1 = delete_all self
      in if text \<noteq> [] then
           (let self2 = self1\<lparr>history := history self1 @ [text]\<rparr>;
                self3 = self2\<lparr>history_idx := int (length (history self2))\<rparr>
            in (self3, [text]))
         else (self1, []))"

definition show_history :: "InputBox \<Rightarrow> py_error + InputBox" where
  "show_history self =
     (let self1 = delete_all self
      in if history_idx self1 < int (length (history self1)) then
           (case getitem (history self1) (history_idx self1) of
              Inl e \<Rightarrow> Inl e
            | Inr entry \<Rightarrow> Inr (self1\<lparr>contents := contents self1 @ entry\<rparr>))
         else Inr self1)"

definition hist_prev :: "InputBox \<Rightarrow> py_error + InputBox" where
  "hist_prev self =
     (if history self \<noteq> [] then
        show_history (self\<lparr>history_idx := max 0 (history_idx self - 1)\<rparr>)
      else Inr self)"

definition hist_next :: "InputBox \<Rightarrow> py_error + InputBox" where
  "hist_next self =
     (if history self \<noteq> [] then
        show_history
          (self\<lparr>history_idx := min (int (length (history self))) (history_idx self + 1)\<rparr>)
      else Inr self)"

text \<open>
  The key bindings of \<^verbatim>\<open>InputBox.__init__\<close>. Every other editing action of the user is
  \<open>Edit\<close>, which leaves the widget with the given contents.
\<close>

datatype key = Return | Up | Down | Edit string

fun press :: "InputBox \<Rightarrow> key \<Rightarrow> py_error + InputBox" where
  "press self Return = Inr (fst (submit self))"
| "press self Up = hist_prev self"
| "press self Down = hist_next self"
| "press self (Edit s) = Inr (self\<lparr>contents := s\<rparr>)"

fun presses :: "InputBox \<Rightarrow> key list \<Rightarrow> py_error + InputBox" where
  "presses self [] = Inr self"
| "presses self (k # ks) =
     (case press self k of
        Inl e \<Rightarrow> Inl e
      | Inr self1 \<Rightarrow> presses self1 ks)"

text \<open>The history cursor lies between 0 and the length of the history.\<close>

definition cursor_ok :: "InputBox \<Rightarrow> bool" where
  "cursor_ok self = (0 \<le> history_idx self \<and> history_idx self \<le> int (length (history self)))"

text \<open>The history entry at the cursor, nothing when the cursor is past the last entry.\<close>

definition shown_entry :: "InputBox \<Rightarrow> string" where
  "shown_entry self =
     (if history_idx self < int (length (history self))
      then history self ! nat (history_idx self) else [])"


section \<open>gui/app.py\<close>

text \<open>
  The part of \<^verbatim>\<open>GameApp\<close> the poll loop works on. \<open>timers\<close> are the pending
  \<^verbatim>\<open>after\<close> calls, oldest first, each with its delay in milliseconds. The constant
  \<^verbatim>\<open>POLL_MS\<close> of \<^verbatim>\<open>gui/config.py\<close> is a parameter.
\<close>

datatype callback = Poll_engine

record GameApp =
  engine :: EngineThread
  transcript :: Transcript
  input_box :: InputBox
  timers :: "(int \<times> callback) list"

definition GameApp_init :: "int \<Rightarrow> path \<Rightarrow> GameApp" where
  "GameApp_init POLL_MS story_path =
     \<lparr>engine = EngineThread_init [path_str story_path], transcript = Transcript_init,
      input_box = InputBox_init, timers = [(POLL_MS, Poll_engine)]\<rparr>"

definition after :: "int \<Rightarrow> callback \<Rightarrow> GameApp \<Rightarrow> GameApp" where
  "after ms cb self = self\<lparr>timers := timers self @ [(ms, cb)]\<rparr>"

definition on_command :: "GameApp \<Rightarrow> string \<Rightarrow> GameApp option" where
  "on_command self text =
     (case enqueue_line (engine self) text of
        None \<Rightarrow> None
      | Some e \<Rightarrow> Some (self\<lparr>engine := e\<rparr>))"

text \<open>
  The \<^verbatim>\<open>while True\<close> loop of \<^verbatim>\<open>_poll_engine\<close> with its \<^verbatim>\<open>except Exception: pass\<close>: the
  loop ends when \<^verbatim>\<open>get_nowait\<close> raises.
\<close>

function poll_loop :: "GameApp \<Rightarrow> GameApp" where
  "poll_loop self =
     (case get_nowait (from_engine (engine self)) of
        Inl e \<Rightarrow> self
      | Inr (chunk, p) \<Rightarrow>
          poll_loop (self\<lparr>engine := (engine self)\<lparr>stdout_pipe := p\<rparr>,
                          transcript := Transcript_append (transcript self) chunk\<rparr>))"
  by pat_completeness auto
termination
  by (relation "measure (\<lambda>self. length (queue (stdout_pipe (engine self))))")
     (auto simp: get_nowait_def from_engine_def split: list.splits)

declare poll_loop.simps [simp del]

definition poll_engine :: "int \<Rightarrow> GameApp \<Rightarrow> GameApp" where
  "poll_engine POLL_MS self = after POLL_MS Poll_engine (poll_loop self)"

text \<open>\<^verbatim>\<open>print(s)\<close>: the characters written to standard output.\<close>

definition print :: "string \<Rightarrow> string" where
  "print s = s @ NL"

text \<open>
  \<^verbatim>\<open>main\<close> on the argument vector \<^verbatim>\<open>sys.argv\<close>: the characters it writes to standard
  output and what the process does next, leave with a status (\<^verbatim>\<open>sys.exit\<close>) or enter
  the main loop of the \<^verbatim>\<open>GameApp\<close> built on the path of the story file.
\<close>

datatype outcome = Exit int | Mainloop GameApp

definition main :: "int \<Rightarrow> string list \<Rightarrow> string \<times> outcome" where
  "main POLL_MS args =
     (if length args < 2 then
        (print ''Usage: python -m gui.app STORY_FILE.z5'', Exit 1)
      else ([], Mainloop (GameApp_init POLL_MS (Path (args ! 1)))))"


section \<open>Properties of the relay\<close>

lemma put_Some: "put p s = Some q \<Longrightarrow> q = p\<lparr>queue := queue p @ [s]\<rparr>"
  by (auto simp: put_def split: if_splits)

lemma get_Some: "get p = Some (x, q) \<Longrightarrow> queue p = x # queue q \<and> q = p\<lparr>queue := queue q\<rparr>"
  by (auto simp: get_def split: list.splits)

lemma exec_ops_fifo:
  "exec_ops p ops = Some (q, outs) \<Longrightarrow>
     queue p @ written ops = outs @ queue q \<and> maxsize q = maxsize p"
proof (induction p ops arbitrary: q outs rule: exec_ops.induct)
  case (1 p)
  then show ?case by simp
next
  case (2 p s ops)
  from "2.prems" obtain p' where w: "Pipe_write p s = Some p'" and e: "exec_ops p' ops = Some (q, outs)"
    by (auto split: option.splits)
  from w have p': "p' = p\<lparr>queue := queue p @ [s]\<rparr>"
    by (simp add: Pipe_write_def put_Some)
  from "2.IH"[OF w e] p' show ?case by simp
next
  case (3 p ops)
  from "3.prems" obtain x p' where r: "readline p = Some (x, p')"
    by (cases "readline p") auto
  from "3.prems" r obtain outs' where e: "exec_ops p' ops = Some (q, outs')"
    and eq: "outs = x # outs'"
    by (cases "exec_ops p' ops") auto
  from r have p': "queue p = x # queue p'" "maxsize p' = maxsize p"
    by (auto simp: readline_def get_def split: list.splits)
  from "3.IH"[OF r refl e] p' eq show ?case by simp
qed

lemma readlines_all:
  "length (queue p) = n \<Longrightarrow> readlines n p = Some (queue p, p\<lparr>queue := []\<rparr>)"
proof (induction n arbitrary: p)
  case 0
  then show ?case by simp
next
  case (Suc n)
  then obtain x xs where q: "queue p = x # xs" by (cases "queue p") auto
  with Suc.prems have "length (queue (p\<lparr>queue := xs\<rparr>)) = n" by simp
  from Suc.IH[OF this] q show ?case
    by (simp add: readline_def get_def)
qed

lemma writes_complete:
  "maxsize p \<le> 0 \<or> int (length (queue p)) + int (length fs) \<le> maxsize p \<Longrightarrow>
     exec_ops p (map Write fs) = Some (p\<lparr>queue := queue p @ fs\<rparr>, [])"
proof (induction fs arbitrary: p)
  case Nil
  then show ?case by simp
next
  case (Cons f fs)
  let ?p1 = "p\<lparr>queue := queue p @ [f]\<rparr>"
  from Cons.prems have w: "Pipe_write p f = Some ?p1"
    by (auto simp: Pipe_write_def put_def)
  from Cons.prems
  have "maxsize ?p1 \<le> 0 \<or> int (length (queue ?p1)) + int (length fs) \<le> maxsize ?p1"
    by auto
  from Cons.IH[OF this] w show ?case by simp
qed

text \<open>One poll drains the outbound relay into the transcript, oldest fragment first.\<close>

lemma poll_loop_drains:
  "poll_loop self =
     self\<lparr>engine := (engine self)\<lparr>stdout_pipe := (stdout_pipe (engine self))\<lparr>queue := []\<rparr>\<rparr>,
          transcript := foldl Transcript_append (transcript self) (queue (stdout_pipe (engine self)))\<rparr>"
proof (induction "queue (stdout_pipe (engine self))" arbitrary: self)
  case Nil
  then show ?case
    by (subst poll_loop.simps) (simp add: get_nowait_def from_engine_def)
next
  case (Cons chunk rest)
  let ?self1 = "self\<lparr>engine := (engine self)\<lparr>stdout_pipe := (stdout_pipe (engine self))\<lparr>queue := rest\<rparr>\<rparr>,
                      transcript := Transcript_append (transcript self) chunk\<rparr>"
  have step: "poll_loop self = poll_loop ?self1"
    using Cons.hyps(2)[symmetric]
    by (subst poll_loop.simps) (simp add: get_nowait_def from_engine_def)
  have "rest = queue (stdout_pipe (engine ?self1))" by simp
  from Cons.hyps(1)[OF this] step Cons.hyps(2)[symmetric] show ?case by simp
qed

lemma buffer_foldl_append:
  "buffer (foldl Transcript_append t fs) = buffer t @ concat fs"
  by (induction fs arbitrary: t)
     (simp_all add: Transcript_append_def configure_state_def insert_end_def see_end_def)

text \<open>
  Claim C1. The fragments written to one relay come out in the order written, each once
  and whole. For every history of \<^verbatim>\<open>write\<close> and \<^verbatim>\<open>readline\<close> calls on a new relay
  in which every call returns, the fragments already read followed by the fragments
  still queued are the fragments written, in order. Draining what is queued by blocking
  \<^verbatim>\<open>readline\<close> calls returns exactly the queue, and draining it by the poll loop's
  \<^verbatim>\<open>get_nowait\<close> calls hands each queued fragment, in order, to
  \<^verbatim>\<open>Transcript.append\<close> and leaves the relay empty.
\<close>

theorem pipe_fifo:
  assumes "exec_ops (Pipe_init m) ops = Some (p, outs)"
  shows "outs @ queue p = written ops \<and>
         readlines (length (queue p)) p = Some (queue p, p\<lparr>queue := []\<rparr>) \<and>
         transcript (poll_engine ms (app\<lparr>engine := (engine app)\<lparr>stdout_pipe := p\<rparr>\<rparr>)) =
           foldl Transcript_append (transcript app) (queue p) \<and>
         buffer (transcript (poll_engine ms (app\<lparr>engine := (engine app)\<lparr>stdout_pipe := p\<rparr>\<rparr>))) =
           buffer (transcript app) @ concat (queue p) \<and>
         queue (from_engine (engine (poll_engine ms
                  (app\<lparr>engine := (engine app)\<lparr>stdout_pipe := p\<rparr>\<rparr>)))) = []"
proof -
  from exec_ops_fifo[OF assms] have a: "outs @ queue p = written ops"
    by (simp add: Pipe_init_def)
  have b: "readlines (length (queue p)) p = Some (queue p, p\<lparr>queue := []\<rparr>)"
    by (rule readlines_all) simp
  let ?app = "app\<lparr>engine := (engine app)\<lparr>stdout_pipe := p\<rparr>\<rparr>"
  have c: "transcript (poll_engine ms ?app) = foldl Transcript_append (transcript app) (queue p)"
    by (simp add: poll_engine_def after_def poll_loop_drains)
  have d: "queue (from_engine (engine (poll_engine ms ?app))) = []"
    by (simp add: poll_engine_def after_def poll_loop_drains from_engine_def)
  from c have e: "buffer (transcript (poll_engine ms ?app)) =
                    buffer (transcript app) @ concat (queue p)"
    by (simp only: buffer_foldl_append)
  from a b c d e show ?thesis by simp
qed

theorem pipe_fifo_witness:
  "exec_ops (Pipe_init 2048) [Write ''West of House'', Write NL, Readline, Write ''>''] =
     Some (\<lparr>maxsize = 2048, queue = [NL, ''>'']\<rparr>, [''West of House'']) \<and>
   [''West of House''] @ queue \<lparr>maxsize = 2048, queue = [NL, ''>'']\<rparr> =
     written [Write ''West of House'', Write NL, Readline, Write ''>''] \<and>
   readlines 2 \<lparr>maxsize = 2048, queue = [NL, ''>'']\<rparr> =
     Some ([NL, ''>''], \<lparr>maxsize = 2048, queue = []\<rparr>) \<and>
   buffer (transcript (poll_engine 50
     ((GameApp_init 50 (Path ''zork1.z5''))\<lparr>engine := (engine (GameApp_init 50 (Path ''zork1.z5'')))
        \<lparr>stdout_pipe := \<lparr>maxsize = 2048, queue = [NL, ''>'']\<rparr>\<rparr>\<rparr>))) = NL @ ''>''"
proof -
  have h: "exec_ops (Pipe_init 2048) [Write ''West of House'', Write NL, Readline, Write ''>''] =
     Some (\<lparr>maxsize = 2048, queue = [NL, ''>'']\<rparr>, [''West of House''])"
    by (simp add: Pipe_init_def Pipe_write_def put_def readline_def get_def)
  show ?thesis
    using h pipe_fifo [OF h, of 50 "GameApp_init 50 (Path ''zork1.z5'')"]
    by (simp add: GameApp_init_def Transcript_init_def Transcript_append_def
        configure_state_def insert_end_def see_end_def numeral_2_eq_2 readline_def get_def)
qed


section \<open>Properties of the engine runner\<close>

text \<open>
  Claim C2. \<^verbatim>\<open>run\<close> is meant to swap the standard streams "for this thread only".
  The assignments rebind the attributes of the one module \<^verbatim>\<open>sys\<close> of the process:
  when the engine's entry point is entered, and from then on, the interface thread
  reads the two relays as \<^verbatim>\<open>sys.stdin\<close> and \<^verbatim>\<open>sys.stdout\<close>, where it read the
  console streams before the worker ran. The same holds when the import of the engine
  fails and the worker ends at once.
\<close>

theorem run_rebinds_stdio_of_process:
  "run (Some xyppy_main) self proc =
     xyppy_main (proc\<lparr>sys_stdin := Engine_stdin_pipe, sys_stdout := Engine_stdout_pipe,
                      sys_argv := ''xyppy'' # argv self\<rparr>) \<and>
   stdin_seen_by Interface_thread
     (proc\<lparr>sys_stdin := Engine_stdin_pipe, sys_stdout := Engine_stdout_pipe,
           sys_argv := ''xyppy'' # argv self\<rparr>) = Engine_stdin_pipe \<and>
   stdout_seen_by Interface_thread
     (proc\<lparr>sys_stdin := Engine_stdin_pipe, sys_stdout := Engine_stdout_pipe,
           sys_argv := ''xyppy'' # argv self\<rparr>) = Engine_stdout_pipe \<and>
   run None self proc =
     proc\<lparr>sys_stdin := Engine_stdin_pipe, sys_stdout := Engine_stdout_pipe\<rparr> \<and>
   stdin_seen_by Interface_thread (run None self proc) = Engine_stdin_pipe \<and>
   stdout_seen_by Interface_thread (run None self proc) = Engine_stdout_pipe \<and>
   stdout_seen_by Interface_thread
     \<lparr>sys_stdin = Console_stdin, sys_stdout = Console_stdout,
      sys_argv = [''gui.app'', ''zork1.z5'']\<rparr> = Console_stdout \<and>
   stdout_seen_by Interface_thread
     (run (Some id) (EngineThread_init [''zork1.z5''])
        \<lparr>sys_stdin = Console_stdin, sys_stdout = Console_stdout,
         sys_argv = [''gui.app'', ''zork1.z5'']\<rparr>) = Engine_stdout_pipe"
  by (simp add: run_def stdin_seen_by_def stdout_seen_by_def Let_def)

lemma endswith_iff: "endswith s t \<longleftrightarrow> (\<exists>u. s = u @ t)"
proof
  assume "endswith s t"
  then have "s = take (length s - length t) s @ t"
    by (metis append_take_drop_id endswith_def)
  then show "\<exists>u. s = u @ t" ..
next
  assume "\<exists>u. s = u @ t"
  then show "endswith s t" by (auto simp: endswith_def)
qed

lemma one_terminator_added:
  "\<not> endswith text NL \<Longrightarrow> one_terminator (text @ NL)"
  by (auto simp: one_terminator_def endswith_iff)

text \<open>
  Claim C3, as amended. On an inbound relay that is not full, \<^verbatim>\<open>enqueue_line\<close>
  queues one fragment behind those already queued: the text itself when it ends with a
  line terminator, the text followed by one line terminator otherwise. The fragment
  always ends with a line terminator, and with exactly one unless the text already
  ended with two. On a new engine runner, a blocking read after
  \<^verbatim>\<open>enqueue_line("look")\<close> and after \<^verbatim>\<open>enqueue_line("look\n")\<close> returns the same
  fragment, \<^verbatim>\<open>"look\n"\<close>.
\<close>

theorem enqueue_line_newline:
  assumes "\<not> full (stdin_pipe self)"
  shows "enqueue_line self text =
           Some (self\<lparr>stdin_pipe := (stdin_pipe self)
                   \<lparr>queue := queue (stdin_pipe self) @
                      [if endswith text NL then text else text @ NL]\<rparr>\<rparr>) \<and>
         endswith (if endswith text NL then text else text @ NL) NL \<and>
         (\<not> endswith text (NL @ NL) \<longrightarrow>
            one_terminator (if endswith text NL then text else text @ NL)) \<and>
         enqueue_then_read (EngineThread_init args) ''look'' = Some (''look'' @ NL) \<and>
         enqueue_then_read (EngineThread_init args) (''look'' @ NL) = Some (''look'' @ NL)"
proof -
  from assms have a: "enqueue_line self text =
           Some (self\<lparr>stdin_pipe := (stdin_pipe self)
                   \<lparr>queue := queue (stdin_pipe self) @
                      [if endswith text NL then text else text @ NL]\<rparr>\<rparr>)"
    by (simp add: enqueue_line_def Pipe_write_def put_def full_def Let_def)
  have b: "endswith (if endswith text NL then text else text @ NL) NL"
    by (simp add: endswith_iff)
  have c: "\<not> endswith text (NL @ NL) \<longrightarrow>
            one_terminator (if endswith text NL then text else text @ NL)"
    using one_terminator_added[of "text"] by (simp add: one_terminator_def)
  have d: "enqueue_then_read (EngineThread_init args) ''look'' = Some (''look'' @ NL)"
    by (simp add: enqueue_then_read_def enqueue_line_def EngineThread_init_def Pipe_init_def
        default_maxsize_def Pipe_write_def put_def readline_def get_def to_engine_def
        endswith_def Let_def)
  have e: "enqueue_then_read (EngineThread_init args) (''look'' @ NL) = Some (''look'' @ NL)"
    by (simp add: enqueue_then_read_def enqueue_line_def EngineThread_init_def Pipe_init_def
        default_maxsize_def Pipe_write_def put_def readline_def get_def to_engine_def
        endswith_def Let_def)
  from a b c d e show ?thesis by simp
qed

theorem enqueue_line_newline_witness:
  "\<not> full (stdin_pipe (EngineThread_init [''zork1.z5''])) \<and>
   enqueue_line (EngineThread_init [''zork1.z5'']) ''look'' =
     Some ((EngineThread_init [''zork1.z5''])
             \<lparr>stdin_pipe := \<lparr>maxsize = 2048, queue = [''look'' @ NL]\<rparr>\<rparr>) \<and>
   \<not> endswith ''look'' (NL @ NL) \<and> one_terminator (''look'' @ NL)"
proof -
  have h: "\<not> full (stdin_pipe (EngineThread_init [''zork1.z5'']))"
    by (simp add: full_def EngineThread_init_def Pipe_init_def default_maxsize_def)
  show ?thesis
    using h enqueue_line_newline [OF h, of "''look''"]
    by (simp add: endswith_def EngineThread_init_def Pipe_init_def default_maxsize_def)
qed

text \<open>
  A text that ends with two line terminators is queued as it is: the fragment read
  back does not end with exactly one.
\<close>

theorem enqueue_line_counterexample:
  "enqueue_then_read (EngineThread_init [''zork1.z5'']) (''look'' @ NL @ NL) =
     Some (''look'' @ NL @ NL) \<and>
   \<not> one_terminator (''look'' @ NL @ NL)"
  by (simp add: enqueue_then_read_def enqueue_line_def EngineThread_init_def Pipe_init_def
      default_maxsize_def Pipe_write_def put_def readline_def get_def to_engine_def
      endswith_def one_terminator_def Let_def)


section \<open>Properties of the input view\<close>

lemma lstrip_decomp: "s = takeWhile isspace s @ lstrip s"
  by (simp add: lstrip_def)

lemma rstrip_decomp: "s = rstrip s @ rev (takeWhile isspace (rev s))"
proof -
  have "rstrip s @ rev (takeWhile isspace (rev s)) =
        rev (takeWhile isspace (rev s) @ dropWhile isspace (rev s))"
    by (simp only: rstrip_def rev_append)
  also have "\<dots> = s"
    by (simp only: takeWhile_dropWhile_id rev_rev_ident)
  finally show ?thesis by simp
qed

lemma strip_decomp:
  "s = takeWhile isspace s @ strip s @ rev (takeWhile isspace (rev (lstrip s)))"
proof -
  have "lstrip s = strip s @ rev (takeWhile isspace (rev (lstrip s)))"
    unfolding strip_def by (rule rstrip_decomp)
  with lstrip_decomp[of s] show ?thesis by simp
qed

lemma list_all_takeWhile: "list_all P (takeWhile P xs)"
  by (induction xs) auto

lemma strip_last: "strip s \<noteq> [] \<Longrightarrow> \<not> isspace (last (strip s))"
  by (simp add: strip_def rstrip_def last_rev hd_dropWhile)

lemma strip_hd: "strip s \<noteq> [] \<Longrightarrow> \<not> isspace (hd (strip s))"
proof -
  assume ne: "strip s \<noteq> []"
  have d: "lstrip s = strip s @ rev (takeWhile isspace (rev (lstrip s)))"
    unfolding strip_def by (rule rstrip_decomp)
  with ne have l: "lstrip s \<noteq> []" by auto
  from d ne have "hd (lstrip s) = hd (strip s)" by (metis hd_append2)
  moreover from l have "\<not> isspace (hd (lstrip s))"
    by (simp add: lstrip_def hd_dropWhile)
  ultimately show ?thesis by simp
qed

text \<open>
  Claim C4. \<^verbatim>\<open>_submit\<close> strips the contents of the input surface of the whitespace
  at both ends. When something is left, it is appended to the history, the cursor
  becomes the new length of the history, the surface is cleared and \<^verbatim>\<open>on_submit\<close> is
  called once, with the stripped text. When nothing is left, the surface is cleared,
  history and cursor stay as they are and \<^verbatim>\<open>on_submit\<close> is not called.
\<close>

theorem submit_effect:
  "(strip (contents self) \<noteq> [] \<longrightarrow>
      submit self =
        (self\<lparr>contents := [], history := history self @ [strip (contents self)],
              history_idx := int (length (history self)) + 1\<rparr>,
         [strip (contents self)])) \<and>
   (strip (contents self) = [] \<longrightarrow> submit self = (self\<lparr>contents := []\<rparr>, [])) \<and>
   (\<exists>l r. contents self = l @ strip (contents self) @ r \<and>
           list_all isspace l \<and> list_all isspace r) \<and>
   (strip (contents self) \<noteq> [] \<longrightarrow>
      \<not> isspace (hd (strip (contents self))) \<and> \<not> isspace (last (strip (contents self))))"
proof -
  have a: "strip (contents self) \<noteq> [] \<longrightarrow>
      submit self =
        (self\<lparr>contents := [], history := history self @ [strip (contents self)],
              history_idx := int (length (history self)) + 1\<rparr>,
         [strip (contents self)])"
    by (simp add: submit_def get_current_line_def delete_all_def Let_def)
  have b: "strip (contents self) = [] \<longrightarrow> submit self = (self\<lparr>contents := []\<rparr>, [])"
    by (simp add: submit_def get_current_line_def delete_all_def Let_def)
  have c: "\<exists>l r. contents self = l @ strip (contents self) @ r \<and>
           list_all isspace l \<and> list_all isspace r"
    using strip_decomp[of "contents self"] list_all_takeWhile[of isspace]
    by (metis list_all_rev)
  from a b c strip_hd strip_last show ?thesis by blast
qed

theorem submit_effect_witness:
  "strip (contents \<lparr>contents = ''  take lamp '', history = [''north''], history_idx = 0\<rparr>) \<noteq> [] \<and>
   submit \<lparr>contents = ''  take lamp '', history = [''north''], history_idx = 0\<rparr> =
     (\<lparr>contents = [], history = [''north'', ''take lamp''], history_idx = 2\<rparr>, [''take lamp'']) \<and>
   strip (contents \<lparr>contents = ''   '', history = [''north''], history_idx = 1\<rparr>) = [] \<and>
   submit \<lparr>contents = ''   '', history = [''north''], history_idx = 1\<rparr> =
     (\<lparr>contents = [], history = [''north''], history_idx = 1\<rparr>, [])"
  using submit_effect [of "\<lparr>contents = ''  take lamp '', history = [''north''], history_idx = 0\<rparr>"]
        submit_effect [of "\<lparr>contents = ''   '', history = [''north''], history_idx = 1\<rparr>"]
  by (simp add: strip_def rstrip_def lstrip_def isspace_def)

lemma hist_prev_in_range:
  assumes "history self \<noteq> []" and "cursor_ok self"
  shows "hist_prev self =
           Inr (self\<lparr>history_idx := max 0 (history_idx self - 1),
                     contents := history self ! nat (max 0 (history_idx self - 1))\<rparr>)"
  using assms
  by (simp add: hist_prev_def show_history_def delete_all_def getitem_def cursor_ok_def Let_def)

lemma hist_next_in_range:
  assumes "history self \<noteq> []" and "cursor_ok self"
  shows "hist_next self =
           Inr (self\<lparr>history_idx := min (int (length (history self))) (history_idx self + 1),
                     contents :=
                       (if history_idx self + 1 < int (length (history self))
                        then history self ! nat (history_idx self + 1) else [])\<rparr>)"
  using assms
  by (auto simp: hist_next_def show_history_def delete_all_def getitem_def cursor_ok_def Let_def
      min_def)

lemma submit_cursor_ok: "cursor_ok self \<Longrightarrow> cursor_ok (fst (submit self))"
  by (simp add: submit_def delete_all_def cursor_ok_def Let_def)

lemma press_cursor_ok:
  assumes "cursor_ok self"
  shows "\<exists>self1. press self k = Inr self1 \<and> cursor_ok self1"
proof (cases k)
  case Return
  with assms show ?thesis by (simp add: submit_cursor_ok)
next
  case Up
  show ?thesis
  proof (cases "history self = []")
    case True
    with Up assms show ?thesis by (simp add: hist_prev_def)
  next
    case False
    from hist_prev_in_range[OF False assms] Up assms show ?thesis
      by (auto simp: cursor_ok_def)
  qed
next
  case Down
  show ?thesis
  proof (cases "history self = []")
    case True
    with Down assms show ?thesis by (simp add: hist_next_def)
  next
    case False
    from hist_next_in_range[OF False assms] Down assms show ?thesis
      by (auto simp: cursor_ok_def)
  qed
next
  case (Edit s)
  with assms show ?thesis by (simp add: cursor_ok_def)
qed

lemma presses_cursor_ok:
  "cursor_ok self \<Longrightarrow> \<exists>self1. presses self ks = Inr self1 \<and> cursor_ok self1"
proof (induction ks arbitrary: self)
  case Nil
  then show ?case by simp
next
  case (Cons k ks)
  from press_cursor_ok[OF Cons.prems, of k]
  obtain self1 where p: "press self k = Inr self1" and ok: "cursor_ok self1" by blast
  from Cons.IH[OF ok] p show ?case by simp
qed

lemma cursor_ok_init: "cursor_ok InputBox_init"
  by (simp add: cursor_ok_def InputBox_init_def)

lemmas inputbox_eval =
  submit_def hist_prev_def hist_next_def show_history_def
  delete_all_def get_current_line_def getitem_def strip_def lstrip_def rstrip_def isspace_def
  InputBox_init_def Let_def

text \<open>
  Claim C5. Whatever keys are pressed on a new input view, no key raises and the cursor
  stays between 0 and the length of the history. With a history that is not empty,
  \<^verbatim>\<open>_hist_prev\<close> moves the cursor one step towards the start and stops at 0,
  \<^verbatim>\<open>_hist_next\<close> moves it one step towards the end and stops at the length, and both
  leave the surface showing the history entry at the cursor, or nothing at the position
  past the end. After submitting "north" and "take lamp" the cursor is 2; Up shows
  "take lamp", Up again "north", a third Up still "north"; from there Down shows
  "take lamp" and a second Down nothing, with the cursor back at 2.
\<close>

theorem history_navigation:
  "(\<exists>self1. presses InputBox_init ks = Inr self1 \<and> cursor_ok self1) \<and>
   (history self \<noteq> [] \<and> cursor_ok self \<longrightarrow>
      (\<exists>p. hist_prev self = Inr p \<and> history p = history self \<and>
           history_idx p = max 0 (history_idx self - 1) \<and> cursor_ok p \<and>
           contents p = shown_entry p) \<and>
      (\<exists>n. hist_next self = Inr n \<and> history n = history self \<and>
           history_idx n = min (int (length (history self))) (history_idx self + 1) \<and>
           cursor_ok n \<and> contents n = shown_entry n)) \<and>
   presses InputBox_init [Edit ''north'', Return, Edit ''take lamp'', Return] =
     Inr \<lparr>contents = [], history = [''north'', ''take lamp''], history_idx = 2\<rparr> \<and>
   presses \<lparr>contents = [], history = [''north'', ''take lamp''], history_idx = 2\<rparr> [Up] =
     Inr \<lparr>contents = ''take lamp'', history = [''north'', ''take lamp''], history_idx = 1\<rparr> \<and>
   presses \<lparr>contents = [], history = [''north'', ''take lamp''], history_idx = 2\<rparr> [Up, Up] =
     Inr \<lparr>contents = ''north'', history = [''north'', ''take lamp''], history_idx = 0\<rparr> \<and>
   presses \<lparr>contents = [], history = [''north'', ''take lamp''], history_idx = 2\<rparr> [Up, Up, Up] =
     Inr \<lparr>contents = ''north'', history = [''north'', ''take lamp''], history_idx = 0\<rparr> \<and>
   presses \<lparr>contents = ''north'', history = [''north'', ''take lamp''], history_idx = 0\<rparr> [Down] =
     Inr \<lparr>contents = ''take lamp'', history = [''north'', ''take lamp''], history_idx = 1\<rparr> \<and>
   presses \<lparr>contents = ''north'', history = [''north'', ''take lamp''], history_idx = 0\<rparr>
       [Down, Down] =
     Inr \<lparr>contents = [], history = [''north'', ''take lamp''], history_idx = 2\<rparr>"
proof -
  have inv: "\<exists>self1. presses InputBox_init ks = Inr self1 \<and> cursor_ok self1"
    by (rule presses_cursor_ok) (rule cursor_ok_init)
  have step: "history self \<noteq> [] \<and> cursor_ok self \<longrightarrow>
      (\<exists>p. hist_prev self = Inr p \<and> history p = history self \<and>
           history_idx p = max 0 (history_idx self - 1) \<and> cursor_ok p \<and>
           contents p = shown_entry p) \<and>
      (\<exists>n. hist_next self = Inr n \<and> history n = history self \<and>
           history_idx n = min (int (length (history self))) (history_idx self + 1) \<and>
           cursor_ok n \<and> contents n = shown_entry n)"
  proof (intro impI conjI)
    assume h: "history self \<noteq> [] \<and> cursor_ok self"
    then have ne: "history self \<noteq> []" and ok: "cursor_ok self" by simp_all
    from hist_prev_in_range[OF ne ok] ne ok
    show "\<exists>p. hist_prev self = Inr p \<and> history p = history self \<and>
           history_idx p = max 0 (history_idx self - 1) \<and> cursor_ok p \<and>
           contents p = shown_entry p"
      by (auto simp: cursor_ok_def shown_entry_def)
    from hist_next_in_range[OF ne ok] ne ok
    show "\<exists>n. hist_next self = Inr n \<and> history n = history self \<and>
           history_idx n = min (int (length (history self))) (history_idx self + 1) \<and>
           cursor_ok n \<and> contents n = shown_entry n"
      by (auto simp: cursor_ok_def shown_entry_def min_def)
  qed
  have s0: "presses InputBox_init [Edit ''north'', Return, Edit ''take lamp'', Return] =
     Inr \<lparr>contents = [], history = [''north'', ''take lamp''], history_idx = 2\<rparr>"
    by (simp add: inputbox_eval)
  have s1: "presses \<lparr>contents = [], history = [''north'', ''take lamp''], history_idx = 2\<rparr> [Up] =
     Inr \<lparr>contents = ''take lamp'', history = [''north'', ''take lamp''], history_idx = 1\<rparr>"
    by (simp add: inputbox_eval)
  have s2: "presses \<lparr>contents = [], history = [''north'', ''take lamp''], history_idx = 2\<rparr> [Up, Up] =
     Inr \<lparr>contents = ''north'', history = [''north'', ''take lamp''], history_idx = 0\<rparr>"
    by (simp add: inputbox_eval)
  have s3: "presses \<lparr>contents = [], history = [''north'', ''take lamp''], history_idx = 2\<rparr> [Up, Up, Up] =
     Inr \<lparr>contents = ''north'', history = [''north'', ''take lamp''], history_idx = 0\<rparr>"
    by (simp add: inputbox_eval)
  have s4: "presses \<lparr>contents = ''north'', history = [''north'', ''take lamp''], history_idx = 0\<rparr> [Down] =
     Inr \<lparr>contents = ''take lamp'', history = [''north'', ''take lamp''], history_idx = 1\<rparr>"
    by (simp add: inputbox_eval)
  have s5: "presses \<lparr>contents = ''north'', history = [''north'', ''take lamp''], history_idx = 0\<rparr>
       [Down, Down] =
     Inr \<lparr>contents = [], history = [''north'', ''take lamp''], history_idx = 2\<rparr>"
    by (simp add: inputbox_eval)
  from inv step s0 s1 s2 s3 s4 s5 show ?thesis by blast
qed

theorem history_navigation_witness:
  "history \<lparr>contents = ''xyzzy'', history = [''north'', ''take lamp''], history_idx = 1\<rparr> \<noteq> [] \<and>
   cursor_ok \<lparr>contents = ''xyzzy'', history = [''north'', ''take lamp''], history_idx = 1\<rparr> \<and>
   (\<exists>p. hist_prev \<lparr>contents = ''xyzzy'', history = [''north'', ''take lamp''], history_idx = 1\<rparr> = Inr p \<and>
        history_idx p = 0 \<and> contents p = shown_entry p) \<and>
   (\<exists>n. hist_next \<lparr>contents = ''xyzzy'', history = [''north'', ''take lamp''], history_idx = 1\<rparr> = Inr n \<and>
        history_idx n = 2 \<and> contents n = shown_entry n)"
proof -
  have h: "history \<lparr>contents = ''xyzzy'', history = [''north'', ''take lamp''], history_idx = 1\<rparr> \<noteq> [] \<and>
   cursor_ok \<lparr>contents = ''xyzzy'', history = [''north'', ''take lamp''], history_idx = 1\<rparr>"
    by (simp add: cursor_ok_def)
  note step = conjunct1 [OF conjunct2 [OF history_navigation
      [of "[]" "\<lparr>contents = ''xyzzy'', history = [''north'', ''take lamp''], history_idx = 1\<rparr>"]]]
  from step [THEN mp, OF h] h show ?thesis
    by auto
qed

text \<open>
  Claim C9. With an empty history, \<^verbatim>\<open>_hist_prev\<close> and \<^verbatim>\<open>_hist_next\<close> return the
  input view as it was: cursor, history and the text typed so far.
\<close>

theorem empty_history_navigation:
  "history self = [] \<Longrightarrow> hist_prev self = Inr self \<and> hist_next self = Inr self"
  by (simp add: hist_prev_def hist_next_def)

theorem empty_history_navigation_witness:
  "history \<lparr>contents = ''open mai'', history = [], history_idx = 0\<rparr> = [] \<and>
   hist_prev \<lparr>contents = ''open mai'', history = [], history_idx = 0\<rparr> =
     Inr \<lparr>contents = ''open mai'', history = [], history_idx = 0\<rparr> \<and>
   hist_next \<lparr>contents = ''open mai'', history = [], history_idx = 0\<rparr> =
     Inr \<lparr>contents = ''open mai'', history = [], history_idx = 0\<rparr>"
  using empty_history_navigation [of "\<lparr>contents = ''open mai'', history = [], history_idx = 0\<rparr>"]
  by simp

text \<open>
  Claim C10. With a history that is not empty, \<^verbatim>\<open>_hist_prev\<close> and \<^verbatim>\<open>_hist_next\<close>
  always replace the contents of the surface by the history entry at the new cursor, or
  by nothing past the end: also when the cursor is already at 0, or at the length, and
  does not move. The result does not depend on the text that was on the surface.
\<close>

theorem navigation_overwrites_contents:
  assumes "history self \<noteq> []" and "cursor_ok self"
  shows "hist_prev self =
           Inr (self\<lparr>history_idx := max 0 (history_idx self - 1),
                     contents := history self ! nat (max 0 (history_idx self - 1))\<rparr>) \<and>
         hist_next self =
           Inr (self\<lparr>history_idx := min (int (length (history self))) (history_idx self + 1),
                     contents :=
                       (if history_idx self + 1 < int (length (history self))
                        then history self ! nat (history_idx self + 1) else [])\<rparr>) \<and>
         (history_idx self = 0 \<longrightarrow> hist_prev self = Inr (self\<lparr>contents := history self ! 0\<rparr>)) \<and>
         (history_idx self = int (length (history self)) \<longrightarrow>
            hist_next self = Inr (self\<lparr>contents := []\<rparr>)) \<and>
         hist_prev (self\<lparr>contents := typed\<rparr>) = hist_prev self \<and>
         hist_next (self\<lparr>contents := typed\<rparr>) = hist_next self"
proof -
  note p = hist_prev_in_range[OF assms]
  note n = hist_next_in_range[OF assms]
  have p0: "history_idx self = 0 \<longrightarrow> hist_prev self = Inr (self\<lparr>contents := history self ! 0\<rparr>)"
    using p by simp
  have n0: "history_idx self = int (length (history self)) \<longrightarrow>
            hist_next self = Inr (self\<lparr>contents := []\<rparr>)"
    using n by simp
  have pt: "hist_prev (self\<lparr>contents := typed\<rparr>) = hist_prev self"
    using assms(1) by (simp add: hist_prev_def show_history_def delete_all_def Let_def)
  have nt: "hist_next (self\<lparr>contents := typed\<rparr>) = hist_next self"
    using assms(1) by (simp add: hist_next_def show_history_def delete_all_def Let_def)
  from p n p0 n0 pt nt show ?thesis by simp
qed

theorem navigation_overwrites_contents_witness:
  "hist_prev \<lparr>contents = ''xyzzy'', history = [''north'', ''take lamp''], history_idx = 0\<rparr> =
     Inr \<lparr>contents = ''north'', history = [''north'', ''take lamp''], history_idx = 0\<rparr> \<and>
   hist_next \<lparr>contents = ''xyzzy'', history = [''north'', ''take lamp''], history_idx = 2\<rparr> =
     Inr \<lparr>contents = [], history = [''north'', ''take lamp''], history_idx = 2\<rparr>"
proof -
  have h0: "history \<lparr>contents = ''xyzzy'', history = [''north'', ''take lamp''], history_idx = 0\<rparr> \<noteq> []"
    by simp
  have c0: "cursor_ok \<lparr>contents = ''xyzzy'', history = [''north'', ''take lamp''], history_idx = 0\<rparr>"
    by (simp add: cursor_ok_def)
  have h2: "history \<lparr>contents = ''xyzzy'', history = [''north'', ''take lamp''], history_idx = 2\<rparr> \<noteq> []"
    by simp
  have c2: "cursor_ok \<lparr>contents = ''xyzzy'', history = [''north'', ''take lamp''], history_idx = 2\<rparr>"
    by (simp add: cursor_ok_def)
  show ?thesis
    using navigation_overwrites_contents [OF h0 c0] navigation_overwrites_contents [OF h2 c2]
    by simp
qed


section \<open>Properties of the transcript view and the application shell\<close>

text \<open>
  Claim C7. \<^verbatim>\<open>Transcript.append\<close> puts the fragment behind the characters the
  transcript holds, which stay as they are, whatever the state option of the widget
  was; the widget is read-only afterwards.
\<close>

theorem transcript_append_tail:
  "buffer (Transcript_append self text) = buffer self @ text \<and>
   take (length (buffer self)) (buffer (Transcript_append self text)) = buffer self \<and>
   drop (length (buffer self)) (buffer (Transcript_append self text)) = text \<and>
   wstate (Transcript_append self text) = Disabled"
  by (simp add: Transcript_append_def configure_state_def insert_end_def see_end_def)

text \<open>
  Claim C6. On an empty outbound relay \<^verbatim>\<open>get_nowait\<close> raises \<^verbatim>\<open>queue.Empty\<close>
  instead of blocking, and \<^verbatim>\<open>_poll_engine\<close> returns normally: transcript, relays and
  input view are unchanged, and the one effect is the timer for the next poll.
\<close>

theorem poll_engine_empty:
  "queue (from_engine (engine self)) = [] \<Longrightarrow>
     get_nowait (from_engine (engine self)) = Inl Empty \<and>
     poll_engine ms self = self\<lparr>timers := timers self @ [(ms, Poll_engine)]\<rparr>"
proof -
  assume e: "queue (from_engine (engine self)) = []"
  then have g: "get_nowait (from_engine (engine self)) = Inl Empty"
    by (simp add: get_nowait_def)
  have "poll_loop self = self"
    by (subst poll_loop.simps) (simp add: g)
  then have "poll_engine ms self = self\<lparr>timers := timers self @ [(ms, Poll_engine)]\<rparr>"
    by (simp add: poll_engine_def after_def)
  with g show ?thesis by simp
qed

theorem poll_engine_empty_witness:
  "queue (from_engine (engine (GameApp_init 50 (Path ''zork1.z5'')))) = [] \<and>
   poll_engine 50 (GameApp_init 50 (Path ''zork1.z5'')) =
     (GameApp_init 50 (Path ''zork1.z5''))\<lparr>timers := [(50, Poll_engine), (50, Poll_engine)]\<rparr> \<and>
   transcript (poll_engine 50 (GameApp_init 50 (Path ''zork1.z5''))) = Transcript_init"
proof -
  have h: "queue (from_engine (engine (GameApp_init 50 (Path ''zork1.z5'')))) = []"
    by (simp add: GameApp_init_def EngineThread_init_def Pipe_init_def from_engine_def)
  show ?thesis
    using h poll_engine_empty [OF h, of 50]
    by (simp add: GameApp_init_def)
qed

lemma Path_dot_slash: "path_str (Path ''./zork1.z5'') = ''zork1.z5''"
  by (simp add: Path_def path_str_def path_parts_def)

text \<open>
  Claim C8. With fewer than two entries in \<^verbatim>\<open>sys.argv\<close>, that is without a story
  file, \<^verbatim>\<open>main\<close> writes the line "Usage: python -m gui.app STORY_FILE.z5" to standard
  output and exits with status 1, which is not zero. With a story file it writes
  nothing and enters the main loop of the \<^verbatim>\<open>GameApp\<close> built on the path given as
  second entry, whose engine runner gets that path, as a string, as its only argument.
\<close>

theorem main_usage:
  "(length args < 2 \<longrightarrow>
      main ms args =
        (''Usage: python -m gui.app STORY_FILE.z5'' @ NL, Exit 1) \<and>
      snd (main ms args) \<noteq> Exit 0) \<and>
   (2 \<le> length args \<longrightarrow>
      main ms args = ([], Mainloop (GameApp_init ms (Path (args ! 1)))) \<and>
      argv (engine (GameApp_init ms (Path (args ! 1)))) = [path_str (Path (args ! 1))])"
  by (simp add: main_def print_def GameApp_init_def EngineThread_init_def)

theorem main_usage_witness:
  "length [''gui.app''] < 2 \<and>
   main 50 [''gui.app''] = (''Usage: python -m gui.app STORY_FILE.z5'' @ NL, Exit 1) \<and>
   2 \<le> length [''gui.app'', ''./zork1.z5''] \<and>
   main 50 [''gui.app'', ''./zork1.z5''] =
     ([], Mainloop (GameApp_init 50 (Path ''./zork1.z5''))) \<and>
   argv (engine (GameApp_init 50 (Path ''./zork1.z5''))) = [''zork1.z5'']"
  using main_usage [of "[''gui.app'']" 50] main_usage [of "[''gui.app'', ''./zork1.z5'']" 50]
  by (simp add: Path_dot_slash)

end
